theory Spec2Isabelle
  imports Complex_Main "HOL-Library.AList"
begin

section \<open>Data model of \<open>audio_lid.py\<close>\<close>

text \<open>
  The module holds one class, \<open>AudioLID\<close>, whose method \<open>infer_language\<close> drives three
  collaborators that live outside the file: \<open>load_audio_samples\<close> and
  \<open>find_speech_list\<close> of \<open>SpeechDetecting\<close>, and \<open>infer\<close> of \<open>LanguageIdentify\<close>.

  Python floats are idealised as \<^typ>\<open>real\<close>: arithmetic is exact, there is no rounding
  and no NaN. Python's unbounded integers are \<^typ>\<open>int\<close>.
\<close>

type_synonym sample_buffer = "int list"

text \<open>A speech object; the method only reads its \<open>samples\<close> attribute.\<close>

record speech_obj =
  samples :: sample_buffer

text \<open>One segment's prediction: the (language, score) pairs in the classifier's order.\<close>

type_synonym prediction = "(string \<times> real) list"

text \<open>
  The dictionary returned by \<open>infer\<close>, as its items in iteration order.
\<close>

type_synonym 'k predictions = "('k \<times> prediction) list"

type_synonym language_list = "(string \<times> real) list"

text \<open>The options the constructor stores in \<open>self.args\<close> (lines 33 to 40).\<close>

record args =
  debug :: bool
  output_path :: string
  speech_segment_count :: int
  speech_segment_duration :: int
  speech_score_threshold :: real
  parse_start_offset :: int
  top_k :: int
  denoise_model :: "string option"

text \<open>
  The collaborators are objects with a state of their own, so each call takes the state
  of the outside world \<open>'w\<close> and returns the new one; nothing is assumed about what they
  compute. \<open>ERROR_CODE_NO_VALID_LANGUAGE\<close> comes from \<open>error_codes.py\<close>, which is not part
  of the file, and is a parameter as well.
\<close>

record ('w, 'k) collaborators =
  load_audio_samples :: "string \<Rightarrow> 'w \<Rightarrow> (int \<times> sample_buffer) \<times> 'w"
  find_speech_list :: "sample_buffer \<Rightarrow> real \<Rightarrow> int \<Rightarrow> 'w \<Rightarrow> (int \<times> speech_obj list) \<times> 'w"
  infer :: "sample_buffer list \<Rightarrow> 'w \<Rightarrow> 'k predictions \<times> 'w"
  ERROR_CODE_NO_VALID_LANGUAGE :: int

text \<open>
  The calls the method makes, in order. \<open>SaveSegments\<close> stands for the whole debug dump
  of lines 73 to 94 (the wav files and the two manifests); console output is left out.
\<close>

datatype event =
    is_LoadAudioSamples: LoadAudioSamples string
  | is_FindSpeechList: FindSpeechList sample_buffer real int
  | is_SaveSegments: SaveSegments string "speech_obj list"
  | is_Infer: Infer "sample_buffer list"

datatype error = ZeroDivisionError

text \<open>
  How the method ends: \<open>exit(1)\<close>, a returned pair (the result \<open>None\<close> or a list), or an
  exception.
\<close>

datatype outcome =
    Exit int
  | Return int "language_list option"
  | Raise error

section \<open>Aggregation (lines 102 to 131)\<close>

record agg_state =
  total_score :: real
  valid_count :: int
  language_score_map :: "(string \<times> real) list"

definition min_threshold :: real where
  "min_threshold = 0.4"

text \<open>
  The body of the inner loop (lines 108 to 117). The dictionary \<open>language_score_map\<close> is
  an association list in insertion order: \<^const>\<open>AList.update\<close> overwrites the value of a
  key that is present where it stands and appends a new key at the end, as a Python
  dictionary does.
\<close>

fun add_score :: "string \<times> real \<Rightarrow> agg_state \<Rightarrow> agg_state" where
  "add_score (language_str, score) st =
     (if score < min_threshold then st
      else
        (let language_total_score =
               (case map_of (language_score_map st) language_str of
                  None \<Rightarrow> 0
                | Some v \<Rightarrow> v) + score
         in st\<lparr>valid_count := valid_count st + 1,
               total_score := total_score st + score,
               language_score_map :=
                 AList.update language_str language_total_score (language_score_map st)\<rparr>))"

text \<open>The two nested loops of lines 102 to 117.\<close>

definition accumulate :: "'k predictions \<Rightarrow> agg_state" where
  "accumulate predictions =
     fold (\<lambda>(key, prediction) st. fold add_score prediction st) predictions
       \<lparr>total_score = 0, valid_count = 0, language_score_map = []\<rparr>"

text \<open>
  \<open>sorted(result_list, key=lambda language_obj: language_obj[1], reverse=True)\<close>:
  Python's sort is stable and stays so with \<open>reverse=True\<close>, which is a stable sort on
  the negated key.
\<close>

definition sorted_reverse :: "language_list \<Rightarrow> language_list" where
  "sorted_reverse result_list = sort_key (\<lambda>language_obj. - snd language_obj) result_list"

text \<open>Line 126 for every item of the map; the division raises on a zero total.\<close>

definition percentages :: "agg_state \<Rightarrow> language_list" where
  "percentages st =
     map (\<lambda>(language_str, score). (language_str, score * 100 / total_score st))
       (language_score_map st)"

text \<open>Lines 102 to 131, given the value of \<open>ERROR_CODE_NO_VALID_LANGUAGE\<close>.\<close>

definition aggregate :: "int \<Rightarrow> 'k predictions \<Rightarrow> error + (int \<times> language_list option)" where
  "aggregate no_valid_language predictions =
     (let st = accumulate predictions in
      if length (language_score_map st) = 0 then Inr (no_valid_language, None)
      else if total_score st = 0 then Inl ZeroDivisionError
      else Inr (valid_count st, Some (sorted_reverse (percentages st))))"

text \<open>
  For the statements below: all (language, score) pairs of a batch in the order the loops
  visit them, without those that line 108 skips.
\<close>

abbreviation kept_pairs :: "'k predictions \<Rightarrow> (string \<times> real) list" where
  "kept_pairs predictions \<equiv> filter (\<lambda>pair. min_threshold \<le> snd pair) (concat (map snd predictions))"

section \<open>The method \<open>infer_language\<close> (lines 57 to 131)\<close>

text \<open>
  Lines 61 to 69: the first pass, and the second one when the first found too little.
  The result is the pair \<open>(ret, speech_list)\<close> that line 71 sees, the calls made and the
  new state of the world.
\<close>

definition find_speech ::
  "('w, 'k) collaborators \<Rightarrow> args \<Rightarrow> sample_buffer \<Rightarrow> 'w
     \<Rightarrow> (int \<times> speech_obj list) \<times> event list \<times> 'w" where
  "find_speech C a smp w =
     (case find_speech_list C smp (speech_score_threshold a) (speech_segment_duration a) w of
        ((ret, speech_list), w') \<Rightarrow>
          (let first = FindSpeechList smp (speech_score_threshold a) (speech_segment_duration a)
           in if 0 \<le> ret \<and> ret < speech_segment_count a
              then
                (case find_speech_list C smp
                        (max (speech_score_threshold a - 0.2) 0.4)
                        (max (speech_segment_duration a - 2) 3) w' of
                   (again, w'') \<Rightarrow>
                     (again,
                      [first,
                       FindSpeechList smp
                         (max (speech_score_threshold a - 0.2) 0.4)
                         (max (speech_segment_duration a - 2) 3)],
                      w''))
              else ((ret, speech_list), [first], w')))"

text \<open>Lines 71 to 94: the dump happens in debug mode when \<open>ret > 0\<close>.\<close>

definition debug_dump :: "args \<Rightarrow> int \<Rightarrow> speech_obj list \<Rightarrow> event list" where
  "debug_dump a ret speech_list =
     (if debug a \<and> ret > 0 then [SaveSegments (output_path a) speech_list] else [])"

definition infer_language ::
  "('w, 'k) collaborators \<Rightarrow> args \<Rightarrow> string \<Rightarrow> 'w \<Rightarrow> outcome \<times> event list \<times> 'w" where
  "infer_language C a audio_file w =
     (case load_audio_samples C audio_file w of
        ((ret, smp), w1) \<Rightarrow>
          if ret < 0 then (Exit 1, [LoadAudioSamples audio_file], w1)
          else
            (case find_speech C a smp w1 of
               ((ret, speech_list), calls, w2) \<Rightarrow>
                 (let trace = LoadAudioSamples audio_file # calls @ debug_dump a ret speech_list
                  in if ret < 0 then (Return ret None, trace, w2)
                     else
                       (case infer C (map samples speech_list) w2 of
                          (predictions, w3) \<Rightarrow>
                            ((case aggregate (ERROR_CODE_NO_VALID_LANGUAGE C) predictions of
                                Inl e \<Rightarrow> Raise e
                              | Inr (status, result_list) \<Rightarrow> Return status result_list),
                             trace @ [Infer (map samples speech_list)],
                             w3)))))"

section \<open>Concrete collaborators for evaluation\<close>

text \<open>The defaults of the constructor (lines 18 to 25).\<close>

definition default_args :: args where
  "default_args =
     \<lparr>debug = False, output_path = ''./temp'', speech_segment_count = 5,
      speech_segment_duration = 5, speech_score_threshold = 0.7, parse_start_offset = 60,
      top_k = 3, denoise_model = None\<rparr>"

text \<open>
  A loader that fails on the empty path, a segmenter that answers \<open>first\<close> on its first
  call and \<open>again\<close> on every later one (the world counts its calls), and a classifier
  that answers \<open>preds\<close>.
\<close>

definition stub ::
  "int \<times> speech_obj list \<Rightarrow> int \<times> speech_obj list \<Rightarrow> string predictions
     \<Rightarrow> (nat, string) collaborators" where
  "stub first again preds =
     \<lparr>load_audio_samples = (\<lambda>audio_file w. ((if audio_file = [] then - 1 else 0, [1, - 2, 3]), w)),
      find_speech_list = (\<lambda>smp thr dur w. (if w = 0 then first else again, Suc w)),
      infer = (\<lambda>batch w. (preds, w)),
      ERROR_CODE_NO_VALID_LANGUAGE = - 5\<rparr>"

text \<open>
  A segmenter whose answer depends on what it is asked and when: the status tells whether
  the threshold and the duration were the relaxed ones, the one segment it returns holds
  the duration asked for and the number of earlier calls.
\<close>

definition probe :: "(nat, string) collaborators" where
  "probe =
     \<lparr>load_audio_samples = (\<lambda>audio_file w. ((0, [1, - 2, 3]), w)),
      find_speech_list =
        (\<lambda>smp thr dur w.
           ((if thr < 0.6 \<and> dur < 5 then 7 else 2, [\<lparr>samples = [dur, int w]\<rparr>]), Suc w)),
      infer = (\<lambda>batch w. ([(''s1'', [(''eng'', 0.9)])], w)),
      ERROR_CODE_NO_VALID_LANGUAGE = - 5\<rparr>"

section \<open>The control flow of \<open>infer_language\<close>\<close>

lemma find_not_infer: "is_FindSpeechList e \<Longrightarrow> \<not> is_Infer e"
  by (cases e) simp_all

lemma find_speech_events: "list_all is_FindSpeechList (fst (snd (find_speech C a smp w)))"
  by (simp add: find_speech_def Let_def split: prod.splits)

lemma find_speech_no_retry:
  assumes "find_speech_list C smp (speech_score_threshold a) (speech_segment_duration a) w = ((c, sl), w')"
    and "\<not> (0 \<le> c \<and> c < speech_segment_count a)"
  shows "find_speech C a smp w =
    ((c, sl), [FindSpeechList smp (speech_score_threshold a) (speech_segment_duration a)], w')"
  using assms by (auto simp: find_speech_def Let_def)

lemma find_speech_retry:
  assumes "find_speech_list C smp (speech_score_threshold a) (speech_segment_duration a) w = ((c, sl), w')"
    and "0 \<le> c" "c < speech_segment_count a"
    and "find_speech_list C smp (max (speech_score_threshold a - 0.2) 0.4)
           (max (speech_segment_duration a - 2) 3) w' = (again, w'')"
  shows "find_speech C a smp w =
    (again,
     [FindSpeechList smp (speech_score_threshold a) (speech_segment_duration a),
      FindSpeechList smp (max (speech_score_threshold a - 0.2) 0.4)
        (max (speech_segment_duration a - 2) 3)],
     w'')"
  using assms by (simp add: find_speech_def Let_def)

lemma infer_language_segmented:
  assumes "load_audio_samples C audio_file w = ((lret, smp), wa)" and "0 \<le> lret"
    and "find_speech C a smp wa = ((ret, speech_list), calls, wb)"
  shows "infer_language C a audio_file w =
    (if ret < 0 then (Return ret None, LoadAudioSamples audio_file # calls, wb)
     else
       (case infer C (map samples speech_list) wb of
          (predictions, wc) \<Rightarrow>
            ((case aggregate (ERROR_CODE_NO_VALID_LANGUAGE C) predictions of
                Inl e \<Rightarrow> Raise e
              | Inr (status, result_list) \<Rightarrow> Return status result_list),
             LoadAudioSamples audio_file # calls @ debug_dump a ret speech_list
               @ [Infer (map samples speech_list)],
             wc)))"
  using assms by (simp add: infer_language_def debug_dump_def Let_def)

text \<open>
  C1 (retry policy). After a successful load, let \<open>(c, sl)\<close> be the answer of the first
  segmentation pass, which leaves the world in \<open>wb\<close>, and \<open>(d, sl')\<close> the answer of
  \<open>find_speech_list\<close> to threshold \<open>max (speech_score_threshold - 0.2) 0.4\<close> and
  duration \<open>max (speech_segment_duration - 2) 3\<close> in \<open>wb\<close>, which leaves \<open>wc\<close>. When
  \<open>0 \<le> c < speech_segment_count\<close>, the method makes exactly that second call and goes on
  with its answer and its world: the status, the segments sent to the classifier and the
  world the classifier runs in are \<open>d\<close>, \<open>sl'\<close> and \<open>wc\<close>. Otherwise (\<open>c \<ge>
  speech_segment_count\<close> or \<open>c < 0\<close>) there is no second call and it goes on with \<open>c\<close>,
  \<open>sl\<close> and \<open>wb\<close>. The segmenter is called twice in the first case and once in the
  second, never a third time, whatever the second pass returns.
\<close>

theorem retry_policy:
  assumes "load_audio_samples C audio_file w = ((lret, smp), wa)" and "0 \<le> lret"
    and "find_speech_list C smp (speech_score_threshold a) (speech_segment_duration a) wa
           = ((c, sl), wb)"
    and "find_speech_list C smp (max (speech_score_threshold a - 0.2) 0.4)
           (max (speech_segment_duration a - 2) 3) wb = ((d, sl'), wc)"
  shows "filter is_FindSpeechList (fst (snd (infer_language C a audio_file w))) =
      (if 0 \<le> c \<and> c < speech_segment_count a
       then [FindSpeechList smp (speech_score_threshold a) (speech_segment_duration a),
             FindSpeechList smp (max (speech_score_threshold a - 0.2) 0.4)
               (max (speech_segment_duration a - 2) 3)]
       else [FindSpeechList smp (speech_score_threshold a) (speech_segment_duration a)])
    \<and> find_speech C a smp wa =
      (if 0 \<le> c \<and> c < speech_segment_count a
       then ((d, sl'),
             [FindSpeechList smp (speech_score_threshold a) (speech_segment_duration a),
              FindSpeechList smp (max (speech_score_threshold a - 0.2) 0.4)
                (max (speech_segment_duration a - 2) 3)],
             wc)
       else ((c, sl),
             [FindSpeechList smp (speech_score_threshold a) (speech_segment_duration a)],
             wb))
    \<and> infer_language C a audio_file w =
      (case (if 0 \<le> c \<and> c < speech_segment_count a
             then ((d, sl'),
                   [FindSpeechList smp (speech_score_threshold a) (speech_segment_duration a),
                    FindSpeechList smp (max (speech_score_threshold a - 0.2) 0.4)
                      (max (speech_segment_duration a - 2) 3)],
                   wc)
             else ((c, sl),
                   [FindSpeechList smp (speech_score_threshold a) (speech_segment_duration a)],
                   wb)) of
         ((ret, speech_list), calls, w2) \<Rightarrow>
           if ret < 0 then (Return ret None, LoadAudioSamples audio_file # calls, w2)
           else
             (case infer C (map samples speech_list) w2 of
                (predictions, w3) \<Rightarrow>
                  ((case aggregate (ERROR_CODE_NO_VALID_LANGUAGE C) predictions of
                      Inl e \<Rightarrow> Raise e
                    | Inr (status, result_list) \<Rightarrow> Return status result_list),
                   LoadAudioSamples audio_file # calls @ debug_dump a ret speech_list
                     @ [Infer (map samples speech_list)],
                   w3)))"
proof (cases "0 \<le> c \<and> c < speech_segment_count a")
  case True
  then have range: "0 \<le> c" "c < speech_segment_count a" by simp_all
  note fs = find_speech_retry [OF assms(3) range assms(4)]
  note il = infer_language_segmented [OF assms(1,2) fs]
  have "filter is_FindSpeechList (fst (snd (infer_language C a audio_file w))) =
      [FindSpeechList smp (speech_score_threshold a) (speech_segment_duration a),
       FindSpeechList smp (max (speech_score_threshold a - 0.2) 0.4)
         (max (speech_segment_duration a - 2) 3)]"
    unfolding il by (simp add: debug_dump_def split: prod.splits)
  then show ?thesis using True fs il by simp
next
  case False
  note fs = find_speech_no_retry [OF assms(3) False]
  note il = infer_language_segmented [OF assms(1,2) fs]
  have "filter is_FindSpeechList (fst (snd (infer_language C a audio_file w))) =
      [FindSpeechList smp (speech_score_threshold a) (speech_segment_duration a)]"
    unfolding il by (simp add: debug_dump_def split: prod.splits)
  then show ?thesis using False fs il by simp
qed

theorem retry_policy_witness:
  "find_speech probe default_args [1, - 2, 3] 0
     = ((7, [\<lparr>samples = [3, 1]\<rparr>]),
        [FindSpeechList [1, - 2, 3] 0.7 5, FindSpeechList [1, - 2, 3] 0.5 3], 2)
   \<and> infer_language probe default_args ''a.mp3'' 0
     = (Return 1 (Some [(''eng'', 100)]),
        [LoadAudioSamples ''a.mp3'', FindSpeechList [1, - 2, 3] 0.7 5,
         FindSpeechList [1, - 2, 3] 0.5 3, Infer [[3, 1]]], 2)
   \<and> infer_language (stub (5, [\<lparr>samples = [1]\<rparr>]) (3, [\<lparr>samples = [2]\<rparr>])
        [(''s1'', [(''eng'', 0.9)])]) default_args ''a.mp3'' 0
     = (Return 1 (Some [(''eng'', 100)]),
        [LoadAudioSamples ''a.mp3'', FindSpeechList [1, - 2, 3] 0.7 5, Infer [[1]]], 1)
   \<and> infer_language (stub (- 1, []) (3, [\<lparr>samples = [2]\<rparr>])
        [(''s1'', [(''eng'', 0.9)])]) default_args ''a.mp3'' 0
     = (Return (- 1) None,
        [LoadAudioSamples ''a.mp3'', FindSpeechList [1, - 2, 3] 0.7 5], 1)"
proof -
  have agg: "aggregate (- 5) [(''s1'', [(''eng'', 0.9)])] = Inr (1, Some [(''eng'', 100)])"
    by (simp add: aggregate_def accumulate_def min_threshold_def percentages_def
        sorted_reverse_def)
  show ?thesis
    using
      retry_policy [where C = probe and a = default_args and audio_file = "''a.mp3''"
        and w = 0 and lret = 0 and smp = "[1, - 2, 3]" and wa = 0
        and c = 2 and sl = "[\<lparr>samples = [5, 0]\<rparr>]" and wb = 1
        and d = 7 and sl' = "[\<lparr>samples = [3, 1]\<rparr>]" and wc = 2]
      retry_policy [where C = "stub (5, [\<lparr>samples = [1]\<rparr>]) (3, [\<lparr>samples = [2]\<rparr>])
          [(''s1'', [(''eng'', 0.9)])]"
        and a = default_args and audio_file = "''a.mp3''" and w = 0 and lret = 0
        and smp = "[1, - 2, 3]" and wa = 0 and c = 5 and sl = "[\<lparr>samples = [1]\<rparr>]" and wb = 1
        and d = 3 and sl' = "[\<lparr>samples = [2]\<rparr>]" and wc = 2]
      retry_policy [where C = "stub (- 1, []) (3, [\<lparr>samples = [2]\<rparr>])
          [(''s1'', [(''eng'', 0.9)])]"
        and a = default_args and audio_file = "''a.mp3''" and w = 0 and lret = 0
        and smp = "[1, - 2, 3]" and wa = 0 and c = "- 1" and sl = "[]" and wb = 1
        and d = 3 and sl' = "[\<lparr>samples = [2]\<rparr>]" and wc = 2]
    by (simp add: stub_def probe_def default_args_def debug_dump_def agg)
qed

text \<open>
  C7 (failure short-circuit). When the segmentation of lines 61 to 69 (the first pass, or
  the second when there is one) ends with a negative status, \<open>infer_language\<close> returns
  that status with the result \<open>None\<close>, and its trace holds no call of the classifier.
\<close>

theorem negative_segmentation_short_circuits:
  assumes "load_audio_samples C audio_file w = ((lret, smp), wa)" and "0 \<le> lret"
    and "find_speech C a smp wa = ((ret, speech_list), calls, wb)" and "ret < 0"
  shows "infer_language C a audio_file w = (Return ret None, LoadAudioSamples audio_file # calls, wb)
    \<and> filter is_Infer (fst (snd (infer_language C a audio_file w))) = []"
proof -
  have r: "infer_language C a audio_file w = (Return ret None, LoadAudioSamples audio_file # calls, wb)"
    using infer_language_segmented [OF assms(1-3)] assms(4) by simp
  have "list_all is_FindSpeechList calls"
    using find_speech_events [of C a smp wa] assms(3) by simp
  then have "filter is_Infer calls = []"
    by (induction calls) (auto simp: find_not_infer)
  with r show ?thesis by simp
qed

theorem negative_segmentation_short_circuits_witness:
  "infer_language (stub (- 7, []) (5, [\<lparr>samples = [1]\<rparr>]) [(''s1'', [(''eng'', 0.9)])])
     default_args ''a.mp3'' 0
   = (Return (- 7) None, [LoadAudioSamples ''a.mp3'', FindSpeechList [1, - 2, 3] 0.7 5], 1)
   \<and> filter is_Infer
        (fst (snd (infer_language (stub (- 7, []) (5, [\<lparr>samples = [1]\<rparr>]) [(''s1'', [(''eng'', 0.9)])])
           default_args ''a.mp3'' 0))) = []"
  using negative_segmentation_short_circuits
    [where C = "stub (- 7, []) (5, [\<lparr>samples = [1]\<rparr>]) [(''s1'', [(''eng'', 0.9)])]"
      and a = default_args and audio_file = "''a.mp3''" and w = 0 and lret = 0
      and smp = "[1, - 2, 3]" and wa = 0 and ret = "- 7" and speech_list = "[]"
      and calls = "[FindSpeechList [1, - 2, 3] 0.7 5]" and wb = 1]
  by (simp add: stub_def default_args_def find_speech_def)

text \<open>
  C9 (load failure is fatal). When \<open>load_audio_samples\<close> returns a negative status,
  \<open>infer_language\<close> ends in \<open>exit(1)\<close> instead of returning a status and a result, and the
  load is the only call it made: no segmentation, no classification, no aggregation.
\<close>

theorem load_failure_exits:
  assumes "load_audio_samples C audio_file w = ((ret, smp), wa)" and "ret < 0"
  shows "infer_language C a audio_file w = (Exit 1, [LoadAudioSamples audio_file], wa)"
  using assms by (simp add: infer_language_def)

theorem load_failure_exits_witness:
  "infer_language (stub (5, [\<lparr>samples = [1]\<rparr>]) (5, [\<lparr>samples = [1]\<rparr>]) [(''s1'', [(''eng'', 0.9)])])
     default_args '''' 0 = (Exit 1, [LoadAudioSamples ''''], 0)"
  using load_failure_exits [where C = "stub (5, [\<lparr>samples = [1]\<rparr>]) (5, [\<lparr>samples = [1]\<rparr>]) [(''s1'', [(''eng'', 0.9)])]"
      and a = default_args and audio_file = "''''" and w = 0 and ret = "- 1"
      and smp = "[1, - 2, 3]" and wa = 0]
  by (simp add: stub_def)

text \<open>
  C10 (the retry replaces the first pass). When the first pass finds \<open>c\<close> segments with
  \<open>0 \<le> c < speech_segment_count\<close> and the second pass returns a negative status \<open>d\<close>,
  \<open>infer_language\<close> returns \<open>d\<close> with the result \<open>None\<close>; the trace is the load and the two
  passes, so the segments of the first pass never reach the classifier.
\<close>

theorem retry_replaces_first_pass:
  assumes "load_audio_samples C audio_file w = ((lret, smp), wa)" and "0 \<le> lret"
    and "find_speech_list C smp (speech_score_threshold a) (speech_segment_duration a) wa
           = ((c, sl), wb)"
    and "0 \<le> c" and "c < speech_segment_count a"
    and "find_speech_list C smp (max (speech_score_threshold a - 0.2) 0.4)
           (max (speech_segment_duration a - 2) 3) wb = ((d, sl'), wc)"
    and "d < 0"
  shows "infer_language C a audio_file w =
    (Return d None,
     [LoadAudioSamples audio_file,
      FindSpeechList smp (speech_score_threshold a) (speech_segment_duration a),
      FindSpeechList smp (max (speech_score_threshold a - 0.2) 0.4)
        (max (speech_segment_duration a - 2) 3)],
     wc)"
  using infer_language_segmented [OF assms(1,2) find_speech_retry [OF assms(3-6)]] assms(7)
  by simp

theorem retry_replaces_first_pass_witness:
  "infer_language (stub (2, [\<lparr>samples = [1]\<rparr>, \<lparr>samples = [4]\<rparr>]) (- 3, []) [(''s1'', [(''eng'', 0.9)])])
     default_args ''a.mp3'' 0
   = (Return (- 3) None,
      [LoadAudioSamples ''a.mp3'', FindSpeechList [1, - 2, 3] 0.7 5,
       FindSpeechList [1, - 2, 3] 0.5 3], 2)"
  using retry_replaces_first_pass
    [where C = "stub (2, [\<lparr>samples = [1]\<rparr>, \<lparr>samples = [4]\<rparr>]) (- 3, []) [(''s1'', [(''eng'', 0.9)])]"
      and a = default_args and audio_file = "''a.mp3''" and w = 0 and lret = 0
      and smp = "[1, - 2, 3]" and wa = 0 and c = 2
      and sl = "[\<lparr>samples = [1]\<rparr>, \<lparr>samples = [4]\<rparr>]" and wb = 1
      and d = "- 3" and sl' = "[]" and wc = 2]
  by (simp add: stub_def default_args_def)

section \<open>The aggregation loops\<close>

lemma fold_nested:
  "fold (\<lambda>(key, prediction) st. fold add_score prediction st) ps st =
     fold add_score (concat (map snd ps)) st"
  by (induction ps arbitrary: st) auto

lemma accumulate_fold:
  "accumulate ps =
     fold add_score (concat (map snd ps))
       \<lparr>total_score = 0, valid_count = 0, language_score_map = []\<rparr>"
  by (simp add: accumulate_def fold_nested)

lemma fold_valid_count:
  "valid_count (fold add_score xs st) =
     valid_count st + int (length (filter (\<lambda>pair. min_threshold \<le> snd pair) xs))"
proof (induction xs arbitrary: st)
  case Nil
  show ?case by simp
next
  case (Cons x xs)
  obtain l s where x: "x = (l, s)" by (cases x)
  show ?case by (simp add: x Cons.IH Let_def)
qed

lemma fold_total_score:
  "total_score (fold add_score xs st) =
     total_score st + sum_list (map snd (filter (\<lambda>pair. min_threshold \<le> snd pair) xs))"
proof (induction xs arbitrary: st)
  case Nil
  show ?case by simp
next
  case (Cons x xs)
  obtain l s where x: "x = (l, s)" by (cases x)
  show ?case by (simp add: x Cons.IH Let_def)
qed

lemma fold_language_score_map:
  "map_of (language_score_map (fold add_score xs st)) l =
     (if filter (\<lambda>pair. fst pair = l) (filter (\<lambda>pair. min_threshold \<le> snd pair) xs) = []
      then map_of (language_score_map st) l
      else Some ((case map_of (language_score_map st) l of None \<Rightarrow> 0 | Some v \<Rightarrow> v)
                 + sum_list (map snd (filter (\<lambda>pair. fst pair = l)
                     (filter (\<lambda>pair. min_threshold \<le> snd pair) xs)))))"
proof (induction xs arbitrary: st)
  case Nil
  show ?case by simp
next
  case (Cons x xs)
  obtain k s where x: "x = (k, s)" by (cases x)
  show ?case
  proof (cases "s < min_threshold")
    case True
    then show ?thesis by (simp add: x Cons.IH)
  next
    case False
    then show ?thesis
      by (simp add: x Cons.IH Let_def update_conv' split: option.splits)
  qed
qed

lemma filter_fst_empty_iff: "filter (\<lambda>pair. fst pair = l) ys = [] \<longleftrightarrow> l \<notin> fst ` set ys"
  by (auto simp: filter_empty_conv image_iff)




lemma accumulate_valid_count: "valid_count (accumulate ps) = int (length (kept_pairs ps))"
  by (simp add: accumulate_fold fold_valid_count)

lemma accumulate_total_score: "total_score (accumulate ps) = sum_list (map snd (kept_pairs ps))"
  by (simp add: accumulate_fold fold_total_score)

lemma accumulate_map_of:
  "map_of (language_score_map (accumulate ps)) l =
     (if l \<in> fst ` set (kept_pairs ps)
      then Some (sum_list (map snd (filter (\<lambda>pair. fst pair = l) (kept_pairs ps))))
      else None)"
  by (simp add: accumulate_fold fold_language_score_map filter_fst_empty_iff del: filter_filter)

lemma accumulate_empty_iff: "language_score_map (accumulate ps) = [] \<longleftrightarrow> kept_pairs ps = []"
proof
  assume "language_score_map (accumulate ps) = []"
  then have none: "map_of (language_score_map (accumulate ps)) l = None" for l by simp
  have "l \<notin> fst ` set (kept_pairs ps)" for l
  proof
    assume "l \<in> fst ` set (kept_pairs ps)"
    then have "map_of (language_score_map (accumulate ps)) l \<noteq> None"
      by (simp only: accumulate_map_of if_True) simp
    with none [of l] show False by simp
  qed
  then have "p \<notin> set (kept_pairs ps)" for p
    by (metis imageI)
  then show "kept_pairs ps = []" by (meson last_in_set)
next
  assume "kept_pairs ps = []"
  then have "map_of (language_score_map (accumulate ps)) l = None" for l
    unfolding accumulate_map_of by simp
  then have "map_of (language_score_map (accumulate ps)) = Map.empty" by (simp add: fun_eq_iff)
  then show "language_score_map (accumulate ps) = []" by simp
qed

lemma sum_list_kept_pos:
  "xs \<noteq> [] \<Longrightarrow> (\<And>p. p \<in> set xs \<Longrightarrow> min_threshold \<le> snd p) \<Longrightarrow> 0 < sum_list (map snd xs :: real list)"
proof (induction xs)
  case Nil
  then show ?case by simp
next
  case (Cons x xs)
  have "0 \<le> snd p" if "p \<in> set xs" for p
    using Cons.prems(2) [of p] that by (simp add: min_threshold_def)
  then have "0 \<le> sum_list (map snd xs)"
    by (intro sum_list_nonneg) auto
  moreover have "0 < snd x" using Cons.prems(2) [of x] by (simp add: min_threshold_def)
  ultimately show ?case by simp
qed

lemma accumulate_total_pos:
  assumes "language_score_map (accumulate ps) \<noteq> []"
  shows "0 < total_score (accumulate ps)"
proof -
  have "kept_pairs ps \<noteq> []" using assms by (simp only: accumulate_empty_iff not_False_eq_True)
  then have "0 < sum_list (map snd (kept_pairs ps))"
    by (rule sum_list_kept_pos) simp
  then show ?thesis by (simp only: accumulate_total_score)
qed

lemma aggregate_cases:
  "aggregate e ps =
     (if kept_pairs ps = [] then Inr (e, None)
      else Inr (int (length (kept_pairs ps)), Some (sorted_reverse (percentages (accumulate ps)))))"
proof (cases "language_score_map (accumulate ps) = []")
  case True
  then show ?thesis
    using accumulate_empty_iff [of ps] by (simp add: aggregate_def)
next
  case False
  then have "total_score (accumulate ps) \<noteq> 0"
    using accumulate_total_pos [of ps] by simp
  then show ?thesis
    using False accumulate_empty_iff [of ps] accumulate_valid_count [of ps]
    by (simp add: aggregate_def Let_def)
qed

section \<open>Percentages and their order\<close>



lemma percentages_keys: "map fst (percentages st) = map fst (language_score_map st)"
  by (simp add: percentages_def case_prod_unfold comp_def)








lemma sorted_reverse_descending: "sorted_wrt (\<lambda>p q. snd q \<le> snd p) (sorted_reverse xs)"
proof -
  have "sorted (map (\<lambda>p. - snd p) (sorted_reverse xs))"
    unfolding sorted_reverse_def by (rule sorted_sort_key)
  then show ?thesis by (simp add: sorted_map)
qed

lemma sorted_reverse_stable:
  "filter (\<lambda>p. snd p = x) (sorted_reverse xs) = filter (\<lambda>p. snd p = x) xs"
  using sort_key_stable [of "\<lambda>p. - snd p" "- x" xs]
  by (simp add: sorted_reverse_def)

lemma fold_keys_set:
  "fst ` set (language_score_map (fold add_score xs st)) =
     fst ` set (language_score_map st)
       \<union> fst ` set (filter (\<lambda>pair. min_threshold \<le> snd pair) xs)"
proof (induction xs arbitrary: st)
  case Nil
  show ?case by simp
next
  case (Cons x xs)
  obtain k s where x: "x = (k, s)" by (cases x)
  show ?case
  proof (cases "s < min_threshold")
    case True
    then show ?thesis by (simp add: x Cons.IH)
  next
    case False
    have "fst ` set (language_score_map (fold add_score (x # xs) st)) =
        ({k} \<union> fst ` set (language_score_map st))
          \<union> fst ` set (filter (\<lambda>pair. min_threshold \<le> snd pair) xs)"
      using False by (simp add: x Cons.IH Let_def dom_update del: set_filter)
    also have "\<dots> = fst ` set (language_score_map st)
          \<union> fst ` set (filter (\<lambda>pair. min_threshold \<le> snd pair) (x # xs))"
      using False by (simp add: x del: set_filter)
    finally show ?thesis .
  qed
qed

lemma accumulate_keys:
  "map fst (language_score_map (accumulate ps)) = rev (remdups (rev (map fst (kept_pairs ps))))"
proof -
  define st0 where "st0 = \<lparr>total_score = 0, valid_count = 0, language_score_map = []\<rparr>"
  have "map fst (language_score_map (fold add_score xs st0)) =
      rev (remdups (rev (map fst (filter (\<lambda>pair. min_threshold \<le> snd pair) xs))))" for xs
  proof (induction xs rule: rev_induct)
    case Nil
    show ?case by (simp add: st0_def)
  next
    case (snoc x xs)
    obtain k s where x: "x = (k, s)" by (cases x)
    have keys: "fst ` set (language_score_map (fold add_score xs st0)) =
        fst ` set (filter (\<lambda>pair. min_threshold \<le> snd pair) xs)"
      by (simp add: fold_keys_set st0_def del: set_filter)
    show ?case
    proof (cases "s < min_threshold")
      case True
      then show ?thesis by (simp add: x snoc.IH)
    next
      case False
      then show ?thesis
        using keys by (simp add: x snoc.IH Let_def update_keys del: set_filter)
    qed
  qed
  then show ?thesis by (simp add: accumulate_fold st0_def)
qed

section \<open>Properties of the aggregation\<close>

lemma aggregate_success:
  assumes "aggregate e ps = Inr (status, Some result)"
  shows "kept_pairs ps \<noteq> []" and "status = int (length (kept_pairs ps))"
    and "result = sorted_reverse (percentages (accumulate ps))"
  using assms by (auto simp: aggregate_cases split: if_splits)

lemma infer_language_classified:
  assumes "load_audio_samples C audio_file w = ((lret, smp), wa)" and "0 \<le> lret"
    and "find_speech C a smp wa = ((ret, speech_list), calls, wb)" and "0 \<le> ret"
    and "infer C (map samples speech_list) wb = (predictions, wc)"
  shows "fst (infer_language C a audio_file w) =
    (case aggregate (ERROR_CODE_NO_VALID_LANGUAGE C) predictions of
       Inl e \<Rightarrow> Raise e
     | Inr (status, result_list) \<Rightarrow> Return status result_list)"
  using infer_language_segmented [OF assms(1-3)] assms(4,5) by simp

text \<open>
  C2 (aggregation filtering). After the two loops, \<open>valid_count\<close> is the number of pairs
  of the batch with \<open>score \<ge> min_threshold\<close> (0.4), \<open>total_score\<close> is the sum of their
  scores, and the map holds for each language the sum of the scores of its pairs among
  them, and no entry for a language with none. Pairs with \<open>score < 0.4\<close> contribute to
  nothing; a pair with score exactly 0.4 is kept.
\<close>

theorem accumulate_filtering:
  "valid_count (accumulate ps) = int (length (kept_pairs ps))
   \<and> total_score (accumulate ps) = sum_list (map snd (kept_pairs ps))
   \<and> map_of (language_score_map (accumulate ps)) l =
       (if l \<in> fst ` set (kept_pairs ps)
        then Some (sum_list (map snd (filter (\<lambda>pair. fst pair = l) (kept_pairs ps))))
        else None)"
  using accumulate_valid_count [of ps] accumulate_total_score [of ps] accumulate_map_of [of ps l]
  by (simp only: simp_thms)

theorem accumulate_filtering_witness:
  "valid_count (accumulate [(''s1'', [(''eng'', 0.8), (''fra'', 0.3)]), (''s2'', [(''eng'', 0.4)])]) = 2
   \<and> total_score (accumulate [(''s1'', [(''eng'', 0.8), (''fra'', 0.3)]), (''s2'', [(''eng'', 0.4)])]) = 1.2
   \<and> map_of (language_score_map
        (accumulate [(''s1'', [(''eng'', 0.8), (''fra'', 0.3)]), (''s2'', [(''eng'', 0.4)])])) ''eng''
       = Some 1.2
   \<and> map_of (language_score_map
        (accumulate [(''s1'', [(''eng'', 0.8), (''fra'', 0.3)]), (''s2'', [(''eng'', 0.4)])])) ''fra''
       = None"
  using
    accumulate_filtering [of "[(''s1'', [(''eng'', 0.8), (''fra'', 0.3)]), (''s2'', [(''eng'', 0.4)])]" "''eng''"]
    accumulate_filtering [of "[(''s1'', [(''eng'', 0.8), (''fra'', 0.3)]), (''s2'', [(''eng'', 0.4)])]" "''fra''"]
  by (simp add: min_threshold_def)

text \<open>
  C3 (no valid language). When every (segment, language, score) triple of the batch has
  \<open>score < 0.4\<close>, the language score map is empty after the loops and the aggregation
  returns the \<open>ERROR_CODE_NO_VALID_LANGUAGE\<close> status with the result \<open>None\<close>.
\<close>

theorem no_valid_language:
  assumes "\<forall>(key, prediction) \<in> set ps. \<forall>(language_str, score) \<in> set prediction.
      score < min_threshold"
  shows "language_score_map (accumulate ps) = [] \<and> aggregate e ps = Inr (e, None)"
proof -
  have "kept_pairs ps = []"
    using assms by (fastforce simp: filter_empty_conv)
  then show ?thesis
    by (simp only: aggregate_cases accumulate_empty_iff if_True simp_thms)
qed

theorem no_valid_language_witness:
  "language_score_map (accumulate [(''s1'', [(''eng'', 0.39), (''fra'', 0.3)]), (''s2'', [])]) = []
   \<and> aggregate (- 5) [(''s1'', [(''eng'', 0.39), (''fra'', 0.3)]), (''s2'', [])] = Inr (- 5, None)"
proof -
  have h: "\<forall>(key, prediction) \<in> set [(''s1'', [(''eng'', 0.39), (''fra'', 0.3)]), (''s2'', [])].
      \<forall>(language_str, score) \<in> set prediction. score < min_threshold"
    by (simp add: min_threshold_def)
  show ?thesis by (rule no_valid_language [OF h])
qed



text \<open>
  C5 (ordering). A returned result list is descending by percentage, ties allowed. The
  entries with any one percentage \<open>x\<close> stand in the order of the map's items, and the
  map's keys are in the order of their first kept pair in the batch: the order among
  ties is fixed by the batch.
\<close>

theorem result_ordering:
  assumes "aggregate e ps = Inr (status, Some result)"
  shows "sorted_wrt (\<lambda>p q. snd q \<le> snd p) result
    \<and> filter (\<lambda>p. snd p = x) result = filter (\<lambda>p. snd p = x) (percentages (accumulate ps))
    \<and> map fst (percentages (accumulate ps)) = rev (remdups (rev (map fst (kept_pairs ps))))"
proof -
  have res: "result = sorted_reverse (percentages (accumulate ps))"
    using aggregate_success(3) [OF assms] .
  show ?thesis
    unfolding res
    by (simp only: sorted_reverse_descending sorted_reverse_stable percentages_keys
        accumulate_keys simp_thms)
qed

theorem result_ordering_witness:
  "aggregate (- 5) [(''s1'', [(''eng'', 0.5), (''fra'', 0.5), (''deu'', 0.7), (''fra'', 0.2)])]
     = Inr (3, Some [(''deu'', 700 / 17), (''eng'', 500 / 17), (''fra'', 500 / 17)])
   \<and> sorted_wrt (\<lambda>p q. snd q \<le> snd p)
        [(''deu'', 700 / 17 :: real), (''eng'', 500 / 17), (''fra'', 500 / 17)]
   \<and> filter (\<lambda>p. snd p = 500 / 17)
        (percentages (accumulate [(''s1'', [(''eng'', 0.5), (''fra'', 0.5), (''deu'', 0.7), (''fra'', 0.2)])]))
     = [(''eng'', 500 / 17), (''fra'', 500 / 17)]"
proof -
  have r: "aggregate (- 5) [(''s1'', [(''eng'', 0.5), (''fra'', 0.5), (''deu'', 0.7), (''fra'', 0.2)])]
     = Inr (3, Some [(''deu'', 700 / 17), (''eng'', 500 / 17), (''fra'', 500 / 17)])"
    by (simp add: aggregate_def accumulate_def min_threshold_def percentages_def
        sorted_reverse_def)
  note ord = result_ordering [OF r, of "500 / 17"]
  have s: "sorted_wrt (\<lambda>p q. snd q \<le> snd p)
      [(''deu'', 700 / 17 :: real), (''eng'', 500 / 17), (''fra'', 500 / 17)]"
    using ord by (rule conjunct1)
  have e: "filter (\<lambda>p. snd p = 500 / 17)
      [(''deu'', 700 / 17 :: real), (''eng'', 500 / 17), (''fra'', 500 / 17)]
      = [(''eng'', 500 / 17), (''fra'', 500 / 17)]"
    by simp
  have t: "filter (\<lambda>p. snd p = 500 / 17)
        (percentages (accumulate [(''s1'', [(''eng'', 0.5), (''fra'', 0.5), (''deu'', 0.7), (''fra'', 0.2)])]))
      = [(''eng'', 500 / 17), (''fra'', 500 / 17)]"
    unfolding ord [THEN conjunct2, THEN conjunct1, symmetric] by (rule e)
  show ?thesis by (intro conjI r s t)
qed

text \<open>
  C6 (status code). When \<open>infer_language\<close> returns a result list, the status it returns
  is \<open>valid_count\<close>, the number of pairs of the classifier's answer that passed the
  filter; it is not the number of languages in the list (two pairs and one language in
  the example that follows).
\<close>

theorem status_is_valid_count:
  assumes "load_audio_samples C audio_file w = ((lret, smp), wa)" and "0 \<le> lret"
    and "find_speech C a smp wa = ((ret, speech_list), calls, wb)" and "0 \<le> ret"
    and "infer C (map samples speech_list) wb = (predictions, wc)"
    and "fst (infer_language C a audio_file w) = Return status (Some result)"
  shows "status = valid_count (accumulate predictions)
    \<and> status = int (length (kept_pairs predictions))"
proof -
  have "aggregate (ERROR_CODE_NO_VALID_LANGUAGE C) predictions = Inr (status, Some result)"
    using infer_language_classified [OF assms(1-5)] assms(6)
    by (auto split: sum.splits)
  then have "status = int (length (kept_pairs predictions))"
    by (rule aggregate_success(2))
  then show ?thesis by (simp only: accumulate_valid_count simp_thms)
qed

theorem status_is_valid_count_witness:
  "fst (infer_language
          (stub (5, [\<lparr>samples = [1]\<rparr>, \<lparr>samples = [2]\<rparr>]) (0, [])
             [(''s1'', [(''eng'', 0.8), (''fra'', 0.3)]), (''s2'', [(''eng'', 0.6)])])
          default_args ''a.mp3'' 0)
     = Return 2 (Some [(''eng'', 100)])
   \<and> (2::int) = int (length (kept_pairs [(''s1'', [(''eng'', 0.8), (''fra'', 0.3)]), (''s2'', [(''eng'', 0.6)])]))
   \<and> length [(''eng'', 100::real)] = 1"
proof -
  let ?C = "stub (5, [\<lparr>samples = [1]\<rparr>, \<lparr>samples = [2]\<rparr>]) (0, [])
             [(''s1'', [(''eng'', 0.8), (''fra'', 0.3)]), (''s2'', [(''eng'', 0.6)])]"
  have l: "load_audio_samples ?C ''a.mp3'' 0 = ((0, [1, - 2, 3]), 0)"
    by (simp add: stub_def)
  have f: "find_speech ?C default_args [1, - 2, 3] 0
      = ((5, [\<lparr>samples = [1]\<rparr>, \<lparr>samples = [2]\<rparr>]), [FindSpeechList [1, - 2, 3] 0.7 5], 1)"
    by (simp add: stub_def default_args_def find_speech_def)
  have i: "infer ?C (map samples [\<lparr>samples = [1]\<rparr>, \<lparr>samples = [2]\<rparr>]) 1
      = ([(''s1'', [(''eng'', 0.8), (''fra'', 0.3)]), (''s2'', [(''eng'', 0.6)])], 1)"
    by (simp add: stub_def)
  have a: "aggregate (ERROR_CODE_NO_VALID_LANGUAGE ?C)
      [(''s1'', [(''eng'', 0.8), (''fra'', 0.3)]), (''s2'', [(''eng'', 0.6)])]
      = Inr (2, Some [(''eng'', 100)])"
    by (simp add: aggregate_def accumulate_def min_threshold_def percentages_def
        sorted_reverse_def)
  have r: "fst (infer_language ?C default_args ''a.mp3'' 0) = Return 2 (Some [(''eng'', 100)])"
    by (simp only: infer_language_classified [OF l order_refl f zero_le_numeral i] a
        sum.case prod.case)
  have "(2::int) = int (length (kept_pairs [(''s1'', [(''eng'', 0.8), (''fra'', 0.3)]), (''s2'', [(''eng'', 0.6)])]))"
    using status_is_valid_count [OF l order_refl f zero_le_numeral i r] by (rule conjunct2)
  with r show ?thesis by simp
qed

text \<open>
  C8 as stated fails at the boundary: a batch whose only pair has score exactly 0.4 has
  no pair above 0.4, yet the result is present and holds one entry.
\<close>

theorem floor_at_threshold_counterexample:
  "aggregate (- 5) [(''s1'', [(''eng'', 0.4)])] = Inr (1, Some [(''eng'', 100)])
   \<and> \<not> (0.4::real) > min_threshold"
  by (simp add: aggregate_def accumulate_def min_threshold_def percentages_def
      sorted_reverse_def)

text \<open>
  C8 (amended). The aggregation never raises; its result is \<open>None\<close> if and only if no
  pair of the batch reaches the floor (every score is below 0.4), and a returned list
  is never empty.
\<close>

theorem result_absent_iff:
  "\<exists>status result. aggregate e ps = Inr (status, result)
     \<and> (result = None \<longleftrightarrow>
          (\<forall>(key, prediction) \<in> set ps. \<forall>(language_str, score) \<in> set prediction.
             score < min_threshold))
     \<and> result \<noteq> Some []"
proof -
  have iff: "kept_pairs ps = [] \<longleftrightarrow>
      (\<forall>(key, prediction) \<in> set ps. \<forall>(language_str, score) \<in> set prediction.
         score < min_threshold)"
    by (fastforce simp: filter_empty_conv)
  show ?thesis
  proof (cases "kept_pairs ps = []")
    case True
    then have "aggregate e ps = Inr (e, None)" by (simp add: aggregate_cases)
    then show ?thesis using True iff by simp
  next
    case False
    then have agg: "aggregate e ps =
        Inr (int (length (kept_pairs ps)), Some (sorted_reverse (percentages (accumulate ps))))"
      by (simp add: aggregate_cases)
    have "language_score_map (accumulate ps) \<noteq> []"
      using False by (simp only: accumulate_empty_iff not_False_eq_True)
    moreover have "length (sorted_reverse (percentages (accumulate ps))) =
        length (language_score_map (accumulate ps))"
      by (simp add: sorted_reverse_def percentages_def)
    ultimately have "sorted_reverse (percentages (accumulate ps)) \<noteq> []"
      by (metis length_0_conv)
    then show ?thesis using agg False iff by simp
  qed
qed

theorem result_absent_iff_witness:
  "(\<exists>status result.
      aggregate (- 5) [(''s1'', [(''eng'', 0.4)]), (''s2'', [(''fra'', 0.1)])] = Inr (status, result)
      \<and> (result = None \<longleftrightarrow>
           (\<forall>(key, prediction) \<in> set [(''s1'', [(''eng'', 0.4)]), (''s2'', [(''fra'', 0.1)])].
              \<forall>(language_str, score) \<in> set prediction. score < min_threshold))
      \<and> result \<noteq> Some [])
   \<and> aggregate (- 5) [(''s1'', [(''eng'', 0.4)]), (''s2'', [(''fra'', 0.1)])]
       = Inr (1, Some [(''eng'', 100)])"
proof (rule conjI)
  show "\<exists>status result.
      aggregate (- 5) [(''s1'', [(''eng'', 0.4)]), (''s2'', [(''fra'', 0.1)])] = Inr (status, result)
      \<and> (result = None \<longleftrightarrow>
           (\<forall>(key, prediction) \<in> set [(''s1'', [(''eng'', 0.4)]), (''s2'', [(''fra'', 0.1)])].
              \<forall>(language_str, score) \<in> set prediction. score < min_threshold))
      \<and> result \<noteq> Some []"
    by (rule result_absent_iff)
  show "aggregate (- 5) [(''s1'', [(''eng'', 0.4)]), (''s2'', [(''fra'', 0.1)])]
       = Inr (1, Some [(''eng'', 100)])"
    by (simp add: aggregate_def accumulate_def min_threshold_def percentages_def
        sorted_reverse_def)
qed

end
